theory Spec2Isabelle
  imports Main
begin

section \<open>Data model (app/models/__init__.py)\<close>

text \<open>
  The pydantic models of the user resource. \<^verbatim>\<open>UserBase\<close>, \<^verbatim>\<open>UserCreate\<close> and \<^verbatim>\<open>User\<close> are
  only ever built by their validating constructors, so their fields have the declared
  types, and the hierarchy \<^verbatim>\<open>UserBase <- UserCreate\<close>, \<^verbatim>\<open>UserBase <- User\<close> is kept as
  record extension. The field \<^verbatim>\<open>id\<close> is called \<open>ident\<close> (\<open>id\<close> is the identity function
  of HOL). A \<^verbatim>\<open>datetime\<close> is a number of seconds. Strings are lists of characters, and
  \<open>length\<close> stands for Python's \<^verbatim>\<open>len\<close>.

  \<^verbatim>\<open>UserUpdate\<close> has four optional fields, all defaulting to \<^verbatim>\<open>None\<close>. What
  \<^verbatim>\<open>dict(exclude_unset=True)\<close> keeps is what the request set, so a field is either
  \<open>Unset\<close> or \<open>Given x\<close>, where \<open>x\<close> is \<open>None\<close> for an explicit \<^verbatim>\<open>null\<close> and \<open>Some v\<close> for
  a value.

  \<^verbatim>\<open>UserInDB\<close> declares the fields of \<^verbatim>\<open>User\<close> and \<^verbatim>\<open>hashed_password\<close>, but a stored
  account is also produced by \<^verbatim>\<open>copy(update=...)\<close>, which does not validate: the four
  fields an update can set may hold \<^verbatim>\<open>None\<close> in a stored account whatever their
  declared type, and so they are optional in the record of a stored account. The other
  fields are written by \<^verbatim>\<open>create_user\<close> alone.
\<close>

datatype UserRole = ADMIN | USER | MODERATOR

type_synonym datetime = int

datatype 'a setting = Unset | Given "'a option"

record UserUpdate =
  email :: "string setting"
  full_name :: "string setting"
  role :: "UserRole setting"
  is_active :: "bool setting"

record UserInDB =
  username :: string
  email :: "string option"
  full_name :: "string option"
  role :: "UserRole option"
  is_active :: "bool option"
  ident :: int
  created_at :: datetime
  updated_at :: "datetime option"
  hashed_password :: string

record UserBase =
  username :: string
  email :: string
  full_name :: "string option"
  role :: UserRole
  is_active :: bool

record UserCreate = UserBase +
  password :: string

record User = UserBase +
  ident :: int
  created_at :: datetime
  updated_at :: "datetime option"

text \<open>What the code raises: \<^verbatim>\<open>HTTPException(status_code, detail)\<close>, pydantic's
  \<^verbatim>\<open>ValidationError\<close> when a constructor rejects its arguments, and the \<^verbatim>\<open>ValueError\<close> of
  a field validator.\<close>

datatype error = HTTPException (status_code: int) (detail: string) | ValidationError

datatype ValueError = ValueError string

definition HTTP_400_BAD_REQUEST :: int where "HTTP_400_BAD_REQUEST = 400"
definition HTTP_401_UNAUTHORIZED :: int where "HTTP_401_UNAUTHORIZED = 401"
definition HTTP_403_FORBIDDEN :: int where "HTTP_403_FORBIDDEN = 403"
definition HTTP_404_NOT_FOUND :: int where "HTTP_404_NOT_FOUND = 404"

text \<open>\<^verbatim>\<open>UserCreate.validate_password\<close>: the only constraint on a registration body.\<close>

definition validate_password :: "string \<Rightarrow> ValueError + string" where
  "validate_password v =
     (if length v < 6 then Inl (ValueError ''Password must be at least 6 characters long'')
      else Inr v)"

text \<open>Constructing a \<^verbatim>\<open>UserCreate\<close> runs the validator; \<^verbatim>\<open>role\<close> and \<^verbatim>\<open>is_active\<close> have
  the defaults of \<^verbatim>\<open>UserBase\<close> when the body leaves them out.\<close>

definition UserCreate_init ::
  "string \<Rightarrow> string \<Rightarrow> string \<Rightarrow> string option \<Rightarrow> UserRole option \<Rightarrow> bool option
   \<Rightarrow> ValueError + UserCreate" where
  "UserCreate_init un em pw fn ro ac =
     (case validate_password pw of
        Inl e \<Rightarrow> Inl e
      | Inr v \<Rightarrow> Inr \<lparr> username = un, email = em, full_name = fn,
                      role = (case ro of None \<Rightarrow> USER | Some r \<Rightarrow> r),
                      is_active = (case ac of None \<Rightarrow> True | Some a \<Rightarrow> a),
                      password = v \<rparr>)"

subsection \<open>Views: \<^verbatim>\<open>.dict()\<close>, \<^verbatim>\<open>exclude\<close> and \<^verbatim>\<open>User(**kwargs)\<close>\<close>

text \<open>A model's \<^verbatim>\<open>.dict()\<close> is an association list from field names to values, in the
  order the fields are declared along the class hierarchy.\<close>

datatype val = VNone | VStr string | VBool bool | VInt int | VRole UserRole | VTime datetime

type_synonym pydict = "(string \<times> val) list"

definition opt_val :: "('a \<Rightarrow> val) \<Rightarrow> 'a option \<Rightarrow> val" where
  "opt_val f x = (case x of None \<Rightarrow> VNone | Some v \<Rightarrow> f v)"

definition User_dict :: "User \<Rightarrow> pydict" where
  "User_dict u =
     [(''username'', VStr (username u)), (''email'', VStr (email u)),
      (''full_name'', opt_val VStr (full_name u)), (''role'', VRole (role u)),
      (''is_active'', VBool (is_active u)), (''id'', VInt (ident u)),
      (''created_at'', VTime (created_at u)), (''updated_at'', opt_val VTime (updated_at u))]"

definition UserInDB_dict :: "UserInDB \<Rightarrow> pydict" where
  "UserInDB_dict u =
     [(''username'', VStr (UserInDB.username u)),
      (''email'', opt_val VStr (UserInDB.email u)),
      (''full_name'', opt_val VStr (UserInDB.full_name u)),
      (''role'', opt_val VRole (UserInDB.role u)),
      (''is_active'', opt_val VBool (UserInDB.is_active u)),
      (''id'', VInt (UserInDB.ident u)),
      (''created_at'', VTime (UserInDB.created_at u)),
      (''updated_at'', opt_val VTime (UserInDB.updated_at u)),
      (''hashed_password'', VStr (hashed_password u))]"

definition dict_exclude :: "string list \<Rightarrow> pydict \<Rightarrow> pydict" where
  "dict_exclude ks d = filter (\<lambda>kv. fst kv \<notin> set ks) d"

text \<open>\<^verbatim>\<open>User(**kwargs)\<close>: \<^verbatim>\<open>username\<close>, \<^verbatim>\<open>email\<close>, \<^verbatim>\<open>id\<close> and \<^verbatim>\<open>created_at\<close> are required,
  the other fields have defaults when their key is missing, and keys that are not fields
  of \<^verbatim>\<open>User\<close> are ignored. A field parser gives \<open>None\<close> for a value its field does not
  accept; \<^verbatim>\<open>None\<close> itself is accepted by the two fields declared \<^verbatim>\<open>Optional\<close> only. One
  rejected field makes the constructor raise \<^verbatim>\<open>ValidationError\<close>.\<close>

definition str_field :: "val option \<Rightarrow> string option" where
  "str_field x = (case x of Some (VStr s) \<Rightarrow> Some s | _ \<Rightarrow> None)"

definition int_field :: "val option \<Rightarrow> int option" where
  "int_field x = (case x of Some (VInt i) \<Rightarrow> Some i | _ \<Rightarrow> None)"

definition time_field :: "val option \<Rightarrow> datetime option" where
  "time_field x = (case x of Some (VTime t) \<Rightarrow> Some t | _ \<Rightarrow> None)"

definition opt_str_field :: "val option \<Rightarrow> string option option" where
  "opt_str_field x =
     (case x of None \<Rightarrow> Some None | Some VNone \<Rightarrow> Some None
      | Some (VStr s) \<Rightarrow> Some (Some s) | _ \<Rightarrow> None)"

definition opt_time_field :: "val option \<Rightarrow> datetime option option" where
  "opt_time_field x =
     (case x of None \<Rightarrow> Some None | Some VNone \<Rightarrow> Some None
      | Some (VTime t) \<Rightarrow> Some (Some t) | _ \<Rightarrow> None)"

definition role_field :: "val option \<Rightarrow> UserRole option" where
  "role_field x = (case x of None \<Rightarrow> Some USER | Some (VRole r) \<Rightarrow> Some r | _ \<Rightarrow> None)"

definition bool_field :: "val option \<Rightarrow> bool option" where
  "bool_field x = (case x of None \<Rightarrow> Some True | Some (VBool b) \<Rightarrow> Some b | _ \<Rightarrow> None)"

definition User_fields :: "pydict \<Rightarrow> User option" where
  "User_fields d =
     Option.bind (str_field (map_of d ''username'')) (\<lambda>un.
     Option.bind (str_field (map_of d ''email'')) (\<lambda>em.
     Option.bind (opt_str_field (map_of d ''full_name'')) (\<lambda>fn.
     Option.bind (role_field (map_of d ''role'')) (\<lambda>ro.
     Option.bind (bool_field (map_of d ''is_active'')) (\<lambda>ac.
     Option.bind (int_field (map_of d ''id'')) (\<lambda>i.
     Option.bind (time_field (map_of d ''created_at'')) (\<lambda>c.
     Option.bind (opt_time_field (map_of d ''updated_at'')) (\<lambda>up.
       Some \<lparr> username = un, email = em, full_name = fn, role = ro, is_active = ac,
              ident = i, created_at = c, updated_at = up \<rparr>))))))))"

definition User_init :: "pydict \<Rightarrow> error + User" where
  "User_init d = (case User_fields d of None \<Rightarrow> Inl ValidationError | Some u \<Rightarrow> Inr u)"

text \<open>\<^verbatim>\<open>User(**u.dict(exclude={"hashed_password"}))\<close>, the expression through which every
  operation of the service returns an account.\<close>

definition without_password :: "UserInDB \<Rightarrow> error + User" where
  "without_password u = User_init (dict_exclude [''hashed_password''] (UserInDB_dict u))"

text \<open>The stored accounts on which that expression does not raise (lemma
  \<open>without_password_cases\<close>): those that hold no \<^verbatim>\<open>None\<close> where \<^verbatim>\<open>User\<close> wants a value.\<close>

definition valid_account :: "UserInDB \<Rightarrow> bool" where
  "valid_account u \<longleftrightarrow>
     UserInDB.email u \<noteq> None \<and> UserInDB.role u \<noteq> None \<and> UserInDB.is_active u \<noteq> None"

section \<open>The user service (app/services/user_service.py)\<close>

text \<open>
  The state of a \<^verbatim>\<open>UserService\<close>: the list \<^verbatim>\<open>_users\<close> and the counter \<^verbatim>\<open>_next_id\<close>.
  Every method takes the state and returns the new one when it mutates; when it
  raises after a mutation, the mutated state comes with the error. The module
  \<^verbatim>\<open>app.core.security\<close> is not part of the sources: \<^verbatim>\<open>get_password_hash\<close> and
  \<^verbatim>\<open>verify_password\<close> are parameters of the methods that call them, and so is the
  value of \<^verbatim>\<open>datetime.utcnow()\<close>.
\<close>

record UserService =
  users :: "UserInDB list"
  next_id :: int

definition get_user_by_username :: "UserService \<Rightarrow> string \<Rightarrow> UserInDB option" where
  "get_user_by_username self name = find (\<lambda>user. UserInDB.username user = name) (users self)"

definition get_user_by_email :: "UserService \<Rightarrow> string \<Rightarrow> UserInDB option" where
  "get_user_by_email self em = find (\<lambda>user. UserInDB.email user = Some em) (users self)"

definition get_user_by_id :: "UserService \<Rightarrow> int \<Rightarrow> error + User option" where
  "get_user_by_id self user_id =
     (case find (\<lambda>user. UserInDB.ident user = user_id) (users self) of
        None \<Rightarrow> Inr None
      | Some user \<Rightarrow>
          (case without_password user of Inl e \<Rightarrow> Inl e | Inr view \<Rightarrow> Inr (Some view)))"

definition create_user ::
  "(string \<Rightarrow> string) \<Rightarrow> datetime \<Rightarrow> UserService \<Rightarrow> UserCreate
   \<Rightarrow> (error + User) \<times> UserService" where
  "create_user get_password_hash utcnow self user_create =
     (if get_user_by_username self (username user_create) \<noteq> None
      then (Inl (HTTPException HTTP_400_BAD_REQUEST ''Username already registered''), self)
      else if get_user_by_email self (email user_create) \<noteq> None
      then (Inl (HTTPException HTTP_400_BAD_REQUEST ''Email already registered''), self)
      else
        let hashed = get_password_hash (password user_create);
            user_in_db =
              \<lparr> UserInDB.username = username user_create,
                UserInDB.email = Some (email user_create),
                UserInDB.full_name = full_name user_create,
                UserInDB.role = Some (role user_create),
                UserInDB.is_active = Some (is_active user_create),
                UserInDB.ident = next_id self, UserInDB.created_at = utcnow,
                UserInDB.updated_at = None, hashed_password = hashed \<rparr>
        in (without_password user_in_db,
            self \<lparr> users := users self @ [user_in_db], next_id := next_id self + 1 \<rparr>))"

definition authenticate_user ::
  "(string \<Rightarrow> string \<Rightarrow> bool) \<Rightarrow> UserService \<Rightarrow> string \<Rightarrow> string \<Rightarrow> UserInDB option" where
  "authenticate_user verify_password self name pw =
     (case get_user_by_username self name of
        None \<Rightarrow> None
      | Some user \<Rightarrow>
          if \<not> verify_password pw (hashed_password user) then None else Some user)"

text \<open>Python's \<^verbatim>\<open>xs[start:stop]\<close> for integers: a negative bound counts from the end, and
  both bounds are clamped to the list.\<close>

definition py_slice :: "'a list \<Rightarrow> int \<Rightarrow> int \<Rightarrow> 'a list" where
  "py_slice xs start stop =
     (let n = int (length xs);
          lo = (if start < 0 then max (start + n) 0 else min start n);
          hi = (if stop < 0 then max (stop + n) 0 else min stop n)
      in take (nat (hi - lo)) (drop (nat lo) xs))"

text \<open>\<^verbatim>\<open>[User(**user.dict(exclude={"hashed_password"})) for user in users]\<close>: the
  comprehension stops at the first account whose view raises.\<close>

fun views :: "UserInDB list \<Rightarrow> error + User list" where
  "views [] = Inr []"
| "views (user # rest) =
     (case without_password user of
        Inl e \<Rightarrow> Inl e
      | Inr view \<Rightarrow> (case views rest of Inl e \<Rightarrow> Inl e | Inr vs \<Rightarrow> Inr (view # vs)))"

definition get_users :: "UserService \<Rightarrow> int \<Rightarrow> int \<Rightarrow> error + User list" where
  "get_users self skip limit = views (py_slice (users self) skip (skip + limit))"

text \<open>\<^verbatim>\<open>for i, user in enumerate(self._users): if user.id == user_id: ...\<close>: the index of the
  first account with that id.\<close>

fun index_of_id :: "UserInDB list \<Rightarrow> int \<Rightarrow> nat option" where
  "index_of_id [] user_id = None"
| "index_of_id (user # rest) user_id =
     (if UserInDB.ident user = user_id then Some 0
      else map_option Suc (index_of_id rest user_id))"

text \<open>\<^verbatim>\<open>user.copy(update=update_data)\<close> with
  \<^verbatim>\<open>update_data = user_update.dict(exclude_unset=True)\<close> and \<^verbatim>\<open>updated_at\<close> added: every
  field the request set replaces the stored one, by \<^verbatim>\<open>None\<close> when it was set to
  \<^verbatim>\<open>null\<close>, and nothing is validated; the other fields are kept.\<close>

definition apply_setting :: "'a setting \<Rightarrow> 'a option \<Rightarrow> 'a option" where
  "apply_setting s stored = (case s of Unset \<Rightarrow> stored | Given x \<Rightarrow> x)"

definition copy_update :: "UserInDB \<Rightarrow> UserUpdate \<Rightarrow> datetime \<Rightarrow> UserInDB" where
  "copy_update user user_update utcnow =
     user \<lparr> UserInDB.email := apply_setting (UserUpdate.email user_update) (UserInDB.email user),
            UserInDB.full_name :=
              apply_setting (UserUpdate.full_name user_update) (UserInDB.full_name user),
            UserInDB.role := apply_setting (UserUpdate.role user_update) (UserInDB.role user),
            UserInDB.is_active :=
              apply_setting (UserUpdate.is_active user_update) (UserInDB.is_active user),
            UserInDB.updated_at := Some utcnow \<rparr>"

text \<open>\<^verbatim>\<open>update_user\<close> stores the copy (line 122) before it builds the view (line 124):
  when the view raises, the store has changed all the same.\<close>

definition update_user ::
  "datetime \<Rightarrow> UserService \<Rightarrow> int \<Rightarrow> UserUpdate \<Rightarrow> (error + User option) \<times> UserService" where
  "update_user utcnow self user_id user_update =
     (case index_of_id (users self) user_id of
        None \<Rightarrow> (Inr None, self)
      | Some i \<Rightarrow>
          let updated_user = copy_update (users self ! i) user_update utcnow;
              self' = self \<lparr> users := (users self)[i := updated_user] \<rparr>
          in (case without_password updated_user of
                Inl e \<Rightarrow> (Inl e, self')
              | Inr view \<Rightarrow> (Inr (Some view), self')))"

definition delete_user :: "UserService \<Rightarrow> int \<Rightarrow> bool \<times> UserService" where
  "delete_user self user_id =
     (case index_of_id (users self) user_id of
        None \<Rightarrow> (False, self)
      | Some i \<Rightarrow> (True, self \<lparr> users := take i (users self) @ drop (Suc i) (users self) \<rparr>))"

text \<open>\<^verbatim>\<open>UserService.__init__\<close> with \<^verbatim>\<open>_create_default_users\<close>: two calls of
  \<^verbatim>\<open>create_user\<close> on the empty store; an exception of either would leave the constructor.\<close>

definition admin_user :: UserCreate where
  "admin_user = \<lparr> username = ''admin'', email = ''admin@example.com'',
                  full_name = Some ''Administrator'', role = ADMIN, is_active = True,
                  password = ''admin123'' \<rparr>"

definition regular_user :: UserCreate where
  "regular_user = \<lparr> username = ''john_doe'', email = ''john@example.com'',
                    full_name = Some ''John Doe'', role = USER, is_active = True,
                    password = ''user123'' \<rparr>"

definition create_default_users ::
  "(string \<Rightarrow> string) \<Rightarrow> datetime \<Rightarrow> datetime \<Rightarrow> UserService \<Rightarrow> error + UserService" where
  "create_default_users get_password_hash utcnow1 utcnow2 self =
     (case create_user get_password_hash utcnow1 self admin_user of
        (Inl e, _) \<Rightarrow> Inl e
      | (Inr _, self1) \<Rightarrow>
          (case create_user get_password_hash utcnow2 self1 regular_user of
             (Inl e, _) \<Rightarrow> Inl e
           | (Inr _, self2) \<Rightarrow> Inr self2))"

definition UserService_init ::
  "(string \<Rightarrow> string) \<Rightarrow> datetime \<Rightarrow> datetime \<Rightarrow> error + UserService" where
  "UserService_init get_password_hash utcnow1 utcnow2 =
     create_default_users get_password_hash utcnow1 utcnow2 \<lparr> users = [], next_id = 1 \<rparr>"

text \<open>The states the service can be in: the one the constructor leaves, and those its
  three mutating methods lead to, with any arguments and whatever they return or
  raise.\<close>

inductive reachable :: "UserService \<Rightarrow> bool" where
  init: "UserService_init get_password_hash utcnow1 utcnow2 = Inr self \<Longrightarrow> reachable self"
| create: "reachable self \<Longrightarrow> create_user get_password_hash utcnow self user_create = (r, self')
           \<Longrightarrow> reachable self'"
| update: "reachable self \<Longrightarrow> update_user utcnow self user_id user_update = (r, self')
           \<Longrightarrow> reachable self'"
| delete: "reachable self \<Longrightarrow> delete_user self user_id = (r, self') \<Longrightarrow> reachable self'"

text \<open>What holds in all of them: the accounts are listed by increasing id, every id is
  below the counter, and no two accounts share a username.\<close>

definition store_inv :: "UserService \<Rightarrow> bool" where
  "store_inv self \<longleftrightarrow>
     sorted_wrt (<) (map UserInDB.ident (users self))
     \<and> list_all (\<lambda>user. UserInDB.ident user < next_id self) (users self)
     \<and> distinct (map UserInDB.username (users self))"

section \<open>Authentication endpoints and dependencies (app/api/auth.py)\<close>

text \<open>
  \<^verbatim>\<open>verify_token\<close> belongs to the absent \<^verbatim>\<open>app.core.security\<close>; it is a parameter that
  either raises or returns the \<^verbatim>\<open>username\<close> of its \<^verbatim>\<open>TokenData\<close>, over any type of
  tokens.
\<close>

definition get_current_user ::
  "('tok \<Rightarrow> error + string) \<Rightarrow> UserService \<Rightarrow> 'tok \<Rightarrow> error + User" where
  "get_current_user verify_token self token =
     (case verify_token token of
        Inl e \<Rightarrow> Inl e
      | Inr token_username \<Rightarrow>
          (case get_user_by_username self token_username of
             None \<Rightarrow> Inl (HTTPException HTTP_401_UNAUTHORIZED ''Could not validate credentials'')
           | Some user \<Rightarrow> without_password user))"

definition get_current_active_user :: "User \<Rightarrow> error + User" where
  "get_current_active_user current_user =
     (if \<not> is_active current_user then Inl (HTTPException 400 ''Inactive user'')
      else Inr current_user)"

definition access_token_expire_minutes :: int where
  "access_token_expire_minutes = 30"

definition timedelta_minutes :: "int \<Rightarrow> int" where
  "timedelta_minutes m = 60 * m"

text \<open>\<^verbatim>\<open>login_for_access_token\<close>; \<^verbatim>\<open>create_access_token(data={"sub": ...}, expires_delta=...)\<close>
  is a parameter taking the subject and the lifetime.\<close>

definition login_for_access_token ::
  "(string \<Rightarrow> string \<Rightarrow> bool) \<Rightarrow> (string \<Rightarrow> int \<Rightarrow> 'tok) \<Rightarrow> UserService \<Rightarrow> string \<Rightarrow> string
   \<Rightarrow> error + ('tok \<times> string)" where
  "login_for_access_token verify_password create_access_token self name pw =
     (case authenticate_user verify_password self name pw of
        None \<Rightarrow> Inl (HTTPException HTTP_401_UNAUTHORIZED ''Incorrect username or password'')
      | Some user \<Rightarrow>
          Inr (create_access_token (UserInDB.username user)
                 (timedelta_minutes access_token_expire_minutes),
               ''bearer''))"

text \<open>\<^verbatim>\<open>register_user\<close>: the body is parsed into a \<^verbatim>\<open>UserCreate\<close> (a validation error
  answers before the handler runs), then handed to the service.\<close>

definition register_user ::
  "(string \<Rightarrow> string) \<Rightarrow> datetime \<Rightarrow> UserService
   \<Rightarrow> string \<Rightarrow> string \<Rightarrow> string \<Rightarrow> string option \<Rightarrow> UserRole option \<Rightarrow> bool option
   \<Rightarrow> (ValueError + error + User) \<times> UserService" where
  "register_user get_password_hash utcnow self un em pw fn ro ac =
     (case UserCreate_init un em pw fn ro ac of
        Inl e \<Rightarrow> (Inl e, self)
      | Inr user_create \<Rightarrow>
          (case create_user get_password_hash utcnow self user_create of
             (r, self') \<Rightarrow> (Inr r, self')))"

section \<open>User endpoints (app/api/users.py)\<close>

definition get_admin_user :: "User \<Rightarrow> error + User" where
  "get_admin_user current_user =
     (if role current_user \<noteq> ADMIN
      then Inl (HTTPException HTTP_403_FORBIDDEN ''Not enough permissions'')
      else Inr current_user)"

text \<open>FastAPI resolves \<^verbatim>\<open>Depends(f)\<close> before the handler: the dependencies of \<^verbatim>\<open>f\<close> first,
  then \<^verbatim>\<open>f\<close> on their values; an exception of any of them is the response.\<close>

definition depends_current_active_user ::
  "('tok \<Rightarrow> error + string) \<Rightarrow> UserService \<Rightarrow> 'tok \<Rightarrow> error + User" where
  "depends_current_active_user verify_token self token =
     (case get_current_user verify_token self token of
        Inl e \<Rightarrow> Inl e
      | Inr current_user \<Rightarrow> get_current_active_user current_user)"

definition depends_admin_user ::
  "('tok \<Rightarrow> error + string) \<Rightarrow> UserService \<Rightarrow> 'tok \<Rightarrow> error + User" where
  "depends_admin_user verify_token self token =
     (case depends_current_active_user verify_token self token of
        Inl e \<Rightarrow> Inl e
      | Inr current_user \<Rightarrow> get_admin_user current_user)"

text \<open>The handlers of \<^verbatim>\<open>POST /users/\<close>, \<^verbatim>\<open>PUT /users/{user_id}\<close> and
  \<^verbatim>\<open>DELETE /users/{user_id}\<close>; they share their names with the service methods they
  call, hence the prefix.\<close>

definition api_create_user ::
  "('tok \<Rightarrow> error + string) \<Rightarrow> (string \<Rightarrow> string) \<Rightarrow> datetime \<Rightarrow> UserService
   \<Rightarrow> 'tok \<Rightarrow> UserCreate \<Rightarrow> (error + User) \<times> UserService" where
  "api_create_user verify_token get_password_hash utcnow self token user_create =
     (case depends_admin_user verify_token self token of
        Inl e \<Rightarrow> (Inl e, self)
      | Inr current_user \<Rightarrow> create_user get_password_hash utcnow self user_create)"

definition api_update_user ::
  "('tok \<Rightarrow> error + string) \<Rightarrow> datetime \<Rightarrow> UserService
   \<Rightarrow> 'tok \<Rightarrow> int \<Rightarrow> UserUpdate \<Rightarrow> (error + User) \<times> UserService" where
  "api_update_user verify_token utcnow self token user_id user_update =
     (case depends_current_active_user verify_token self token of
        Inl e \<Rightarrow> (Inl e, self)
      | Inr current_user \<Rightarrow>
          if ident current_user \<noteq> user_id \<and> role current_user \<noteq> ADMIN
          then (Inl (HTTPException HTTP_403_FORBIDDEN ''Not enough permissions''), self)
          else
            (case update_user utcnow self user_id user_update of
               (Inl e, self') \<Rightarrow> (Inl e, self')
             | (Inr None, self') \<Rightarrow>
                 (Inl (HTTPException HTTP_404_NOT_FOUND ''User not found''), self')
             | (Inr (Some updated_user), self') \<Rightarrow> (Inr updated_user, self')))"

definition api_delete_user ::
  "('tok \<Rightarrow> error + string) \<Rightarrow> UserService \<Rightarrow> 'tok \<Rightarrow> int
   \<Rightarrow> (error + string) \<times> UserService" where
  "api_delete_user verify_token self token user_id =
     (case depends_admin_user verify_token self token of
        Inl e \<Rightarrow> (Inl e, self)
      | Inr current_user \<Rightarrow>
          (case delete_user self user_id of
             (False, self') \<Rightarrow> (Inl (HTTPException HTTP_404_NOT_FOUND ''User not found''), self')
           | (True, self') \<Rightarrow> (Inr ''User deleted successfully'', self')))"

section \<open>The missing module app/core/security.py\<close>

text \<open>
  Modelled from the spec: the Token Codec (the code's \<^verbatim>\<open>create_access_token\<close> and
  \<^verbatim>\<open>verify_token\<close> are not among the sources). A token embeds \<open>subject\<close>,
  \<open>issuedAt = now\<close>, \<open>expiresAt = now + ttl\<close> and a signature that covers the three under
  the process-wide secret. The signature is symbolic: two signatures are equal exactly
  when the secret and every covered field are, so that any mutation of the payload
  invalidates it. \<open>verify\<close> fails \<open>Malformed\<close> when the signature does not match,
  \<open>Expired\<close> when the token has expired, and returns the subject otherwise. (A token
  that does not parse has no counterpart: a \<open>token\<close> is already parsed.)

  The spec gives the expiry twice. Section 4.2 has \<open>verify\<close> fail \<open>Expired\<close> if
  \<open>now > expiresAt\<close>; the state machine of section 4.4 and the round trip of section 8
  have a token expired from \<open>now \<ge> expiresAt\<close> on. The two agree at every instant but
  \<open>now = expiresAt\<close>, and no code decides between them, so the codec takes the answer
  at that instant as its first argument: \<open>expired_at_expiry = False\<close> is section 4.2,
  \<open>True\<close> is sections 4.4 and 8.
\<close>

definition secret_key :: string where
  "secret_key = ''your-super-secret-key-change-this-in-production''"

datatype signature = Signed string string int int

record token =
  subject :: string
  issuedAt :: int
  expiresAt :: int
  signature :: signature

datatype verify_failure = Malformed | Expired

definition issue :: "string \<Rightarrow> int \<Rightarrow> int \<Rightarrow> token" where
  "issue sub now ttl =
     \<lparr> subject = sub, issuedAt = now, expiresAt = now + ttl,
       signature = Signed secret_key sub now (now + ttl) \<rparr>"

definition verify :: "bool \<Rightarrow> token \<Rightarrow> int \<Rightarrow> verify_failure + string" where
  "verify expired_at_expiry tok now =
     (if signature tok \<noteq> Signed secret_key (subject tok) (issuedAt tok) (expiresAt tok)
      then Inl Malformed
      else if now > expiresAt tok \<or> (expired_at_expiry \<and> now = expiresAt tok) then Inl Expired
      else Inr (subject tok))"

text \<open>
  Modelled from the spec: \<^verbatim>\<open>verify_token\<close> and \<^verbatim>\<open>create_access_token\<close> on top of the codec,
  to run the endpoints on concrete inputs. Section 4.4 has both failures of \<open>verify\<close>
  surface as one \<open>Unauthorized\<close>; the clock is made an argument.
\<close>

definition verify_token_at :: "bool \<Rightarrow> int \<Rightarrow> token \<Rightarrow> error + string" where
  "verify_token_at expired_at_expiry now tok =
     (case verify expired_at_expiry tok now of
        Inl failure \<Rightarrow> Inl (HTTPException HTTP_401_UNAUTHORIZED ''Could not validate credentials'')
      | Inr sub \<Rightarrow> Inr sub)"

definition create_access_token_at :: "int \<Rightarrow> string \<Rightarrow> int \<Rightarrow> token" where
  "create_access_token_at now sub expires_delta = issue sub now expires_delta"

text \<open>
  Modelled from the spec: a Credential Hasher (section 4.1) to run the service on
  concrete inputs, since \<^verbatim>\<open>get_password_hash\<close> and \<^verbatim>\<open>verify_password\<close> are not among the
  sources. It is a stand-in with the one property the spec gives a hasher, that every
  digest verifies against its plaintext and against no other; the general theorems
  below take the two functions as parameters and do not depend on it.
\<close>

definition demo_get_password_hash :: "string \<Rightarrow> string" where
  "demo_get_password_hash plaintext = ''$demo$'' @ plaintext"

definition demo_verify_password :: "string \<Rightarrow> string \<Rightarrow> bool" where
  "demo_verify_password plaintext digest = (digest = demo_get_password_hash plaintext)"

section \<open>Concrete states\<close>

text \<open>The store of a fresh process when the stand-in hasher is used and the clock reads
  \<open>0\<close> at both default accounts (lemma \<open>seeded_service_init\<close>); the concrete examples
  below start from it.\<close>

definition seeded_service :: UserService where
  "seeded_service =
     \<lparr> users =
         [\<lparr> UserInDB.username = ''admin'', UserInDB.email = Some ''admin@example.com'',
            UserInDB.full_name = Some ''Administrator'', UserInDB.role = Some ADMIN,
            UserInDB.is_active = Some True, UserInDB.ident = 1, UserInDB.created_at = 0,
            UserInDB.updated_at = None, hashed_password = ''$demo$admin123'' \<rparr>,
          \<lparr> UserInDB.username = ''john_doe'', UserInDB.email = Some ''john@example.com'',
            UserInDB.full_name = Some ''John Doe'', UserInDB.role = Some USER,
            UserInDB.is_active = Some True, UserInDB.ident = 2, UserInDB.created_at = 0,
            UserInDB.updated_at = None, hashed_password = ''$demo$user123'' \<rparr>],
       next_id = 3 \<rparr>"

text \<open>Further states reached from it: after \<open>alice\<close> has registered, after the admin
  account has been deactivated, and after \<^verbatim>\<open>PUT /users/2\<close> with the body
  \<^verbatim>\<open>{"email": null}\<close>.\<close>

definition alice :: UserCreate where
  "alice = \<lparr> username = ''alice'', email = ''alice@x.com'', full_name = None,
              role = USER, is_active = True, password = ''secret1'' \<rparr>"

definition with_alice :: UserService where
  "with_alice = snd (create_user demo_get_password_hash 7 seeded_service alice)"

definition admin_deactivated :: UserService where
  "admin_deactivated =
     snd (update_user 9 seeded_service 1
            \<lparr> UserUpdate.email = Unset, UserUpdate.full_name = Unset, UserUpdate.role = Unset,
              UserUpdate.is_active = Given (Some False) \<rparr>)"

definition email_nulled :: UserService where
  "email_nulled =
     snd (update_user 9 seeded_service 2
            \<lparr> UserUpdate.email = Given None, UserUpdate.full_name = Unset,
              UserUpdate.role = Unset, UserUpdate.is_active = Unset \<rparr>)"

section \<open>Basic facts\<close>

lemma find_eq_None_image: "find (\<lambda>u. f u = k) xs = None \<longleftrightarrow> k \<notin> f ` set xs"
  by (induction xs) auto

lemma find_fresh: "k \<notin> f ` set xs \<Longrightarrow> find (\<lambda>u. f u = k) xs = None"
  by (simp add: find_eq_None_image)

lemma find_append_fresh:
  "k \<notin> f ` set xs \<Longrightarrow> find (\<lambda>u. f u = k) (xs @ [x]) = (if f x = k then Some x else None)"
  by (induction xs) auto

lemma find_Some_mem: "find P xs = Some x \<Longrightarrow> x \<in> set xs \<and> P x"
  by (induction xs) (auto split: if_splits)

lemma py_slice_nonneg:
  "0 \<le> start \<Longrightarrow> start \<le> stop \<Longrightarrow>
     py_slice xs start stop = take (nat (stop - start)) (drop (nat start) xs)"
  by (simp add: py_slice_def Let_def min_def)

lemma without_password_valid:
  assumes "UserInDB.email u = Some e" and "UserInDB.role u = Some r"
    and "UserInDB.is_active u = Some a"
  shows "without_password u =
           Inr \<lparr> username = UserInDB.username u, email = e,
                 full_name = UserInDB.full_name u, role = r, is_active = a,
                 ident = UserInDB.ident u, created_at = UserInDB.created_at u,
                 updated_at = UserInDB.updated_at u \<rparr>"
  using assms
  by (simp add: without_password_def User_init_def User_fields_def dict_exclude_def
      UserInDB_dict_def str_field_def int_field_def time_field_def opt_str_field_def
      opt_time_field_def role_field_def bool_field_def opt_val_def split: option.splits)

lemma without_password_record:
  "without_password
     \<lparr> UserInDB.username = un, UserInDB.email = Some e, UserInDB.full_name = fn,
       UserInDB.role = Some r, UserInDB.is_active = Some a, UserInDB.ident = i,
       UserInDB.created_at = c, UserInDB.updated_at = up, hashed_password = h \<rparr>
   = Inr \<lparr> username = un, email = e, full_name = fn, role = r, is_active = a,
           ident = i, created_at = c, updated_at = up \<rparr>"
  by (simp add: without_password_valid [where e = e and r = r and a = a])

lemma without_password_invalid:
  assumes "\<not> valid_account u"
  shows "without_password u = Inl ValidationError"
proof -
  from assms consider "UserInDB.email u = None" | "UserInDB.role u = None"
    | "UserInDB.is_active u = None"
    by (auto simp add: valid_account_def)
  then show ?thesis
    by cases
      (simp_all add: without_password_def User_init_def User_fields_def dict_exclude_def
        UserInDB_dict_def str_field_def int_field_def time_field_def opt_str_field_def
        opt_time_field_def role_field_def bool_field_def opt_val_def Option.bind_eq_None_conv
        split: option.splits)
qed

lemma without_password_Inr:
  assumes "without_password u = Inr v"
  shows "UserInDB.email u = Some (email v)" and "UserInDB.role u = Some (role v)"
    and "UserInDB.is_active u = Some (is_active v)" and "username v = UserInDB.username u"
    and "full_name v = UserInDB.full_name u" and "ident v = UserInDB.ident u"
    and "created_at v = UserInDB.created_at u" and "updated_at v = UserInDB.updated_at u"
proof -
  have valid: "valid_account u"
    using assms without_password_invalid [of u] by auto
  then obtain e r a where era: "UserInDB.email u = Some e" "UserInDB.role u = Some r"
      "UserInDB.is_active u = Some a"
    by (auto simp add: valid_account_def)
  from without_password_valid [OF era] assms
  have v: "v = \<lparr> username = UserInDB.username u, email = e,
                 full_name = UserInDB.full_name u, role = r, is_active = a,
                 ident = UserInDB.ident u, created_at = UserInDB.created_at u,
                 updated_at = UserInDB.updated_at u \<rparr>"
    by simp
  show "UserInDB.email u = Some (email v)" and "UserInDB.role u = Some (role v)"
    and "UserInDB.is_active u = Some (is_active v)" and "username v = UserInDB.username u"
    and "full_name v = UserInDB.full_name u" and "ident v = UserInDB.ident u"
    and "created_at v = UserInDB.created_at u" and "updated_at v = UserInDB.updated_at u"
    using era by (simp_all add: v)
qed

lemma without_password_Inr_iff: "(\<exists>v. without_password u = Inr v) \<longleftrightarrow> valid_account u"
proof
  assume "\<exists>v. without_password u = Inr v"
  then show "valid_account u"
    using without_password_invalid [of u] by (cases "valid_account u") auto
next
  assume "valid_account u"
  then obtain e r a where "UserInDB.email u = Some e" "UserInDB.role u = Some r"
      "UserInDB.is_active u = Some a"
    by (auto simp add: valid_account_def)
  from without_password_valid [OF this] show "\<exists>v. without_password u = Inr v" by blast
qed

lemma User_dict_without_password:
  assumes "without_password u = Inr v"
  shows "User_dict v = dict_exclude [''hashed_password''] (UserInDB_dict u)"
  using without_password_Inr [OF assms]
  by (simp add: User_dict_def dict_exclude_def UserInDB_dict_def opt_val_def)

lemma no_hash_in_dict_exclude:
  "''hashed_password'' \<notin> fst ` set (dict_exclude [''hashed_password''] d)"
  by (auto simp add: dict_exclude_def)

subsection \<open>The comprehension of views\<close>

lemma views_Inr_iff: "(\<exists>vs. views xs = Inr vs) \<longleftrightarrow> list_all valid_account xs"
proof (induction xs)
  case Nil
  show ?case by simp
next
  case (Cons x xs)
  show ?case
  proof (cases "valid_account x")
    case True
    then obtain v where "without_password x = Inr v"
      using without_password_Inr_iff [of x] by blast
    with Cons.IH True show ?thesis
      by (cases "views xs") simp_all
  next
    case False
    with without_password_invalid [of x] show ?thesis by simp
  qed
qed

lemma views_Inr:
  "views xs = Inr vs \<Longrightarrow> map Inr vs = map without_password xs"
proof (induction xs arbitrary: vs)
  case Nil
  then show ?case by simp
next
  case (Cons x xs)
  from Cons.prems obtain v vs' where "without_password x = Inr v" "views xs = Inr vs'"
      "vs = v # vs'"
    by (auto split: sum.splits)
  with Cons.IH [of vs'] show ?case by simp
qed

lemma views_invalid:
  "\<not> list_all valid_account xs \<Longrightarrow> views xs = Inl ValidationError"
proof (induction xs)
  case Nil
  then show ?case by simp
next
  case (Cons x xs)
  show ?case
  proof (cases "valid_account x")
    case False
    with without_password_invalid [of x] show ?thesis by simp
  next
    case True
    then obtain v where "without_password x = Inr v"
      using without_password_Inr_iff [of x] by blast
    moreover from True Cons.prems have "\<not> list_all valid_account xs" by simp
    ultimately show ?thesis using Cons.IH by simp
  qed
qed

lemma views_ident:
  assumes "views xs = Inr vs"
  shows "map ident vs = map UserInDB.ident xs"
proof -
  from views_Inr [OF assms] have len: "length vs = length xs"
    by (metis length_map)
  have "ident (vs ! i) = UserInDB.ident (xs ! i)" if "i < length xs" for i
  proof -
    from views_Inr [OF assms] have "map Inr vs ! i = map without_password xs ! i" by simp
    with that len have "without_password (xs ! i) = Inr (vs ! i)" by simp
    from without_password_Inr(6) [OF this] show ?thesis .
  qed
  with len show ?thesis by (simp add: list_eq_iff_nth_eq)
qed

subsection \<open>The index loop of \<^verbatim>\<open>update_user\<close> and \<^verbatim>\<open>delete_user\<close>\<close>

lemma index_of_id_Some:
  "index_of_id xs k = Some i \<Longrightarrow>
     i < length xs \<and> UserInDB.ident (xs ! i) = k \<and> (\<forall>j<i. UserInDB.ident (xs ! j) \<noteq> k)"
proof (induction xs arbitrary: i)
  case Nil
  then show ?case by simp
next
  case (Cons x xs)
  show ?case
  proof (cases "UserInDB.ident x = k")
    case True
    with Cons.prems show ?thesis by simp
  next
    case False
    with Cons.prems obtain i' where i': "index_of_id xs k = Some i'" and i: "i = Suc i'"
      by auto
    from Cons.IH [OF i'] False i show ?thesis
      by (auto simp add: less_Suc_eq_0_disj)
  qed
qed

lemma index_of_id_None: "index_of_id xs k = None \<longleftrightarrow> k \<notin> UserInDB.ident ` set xs"
  by (induction xs) auto

lemma index_of_id_find:
  "index_of_id xs k = Some i \<Longrightarrow> find (\<lambda>u. UserInDB.ident u = k) xs = Some (xs ! i)"
  by (induction xs arbitrary: i) (auto split: if_splits)

lemma index_of_id_cong:
  "map UserInDB.ident xs = map UserInDB.ident ys \<Longrightarrow> index_of_id xs i = index_of_id ys i"
proof (induction xs arbitrary: ys)
  case Nil
  then show ?case by simp
next
  case (Cons x xs)
  then obtain y ys' where "ys = y # ys'" "UserInDB.ident x = UserInDB.ident y"
      "map UserInDB.ident xs = map UserInDB.ident ys'"
    by (cases ys) auto
  with Cons.IH [of ys'] show ?case by simp
qed

lemma copy_update_keeps [simp]:
  "UserInDB.ident (copy_update u uu now) = UserInDB.ident u"
  "UserInDB.username (copy_update u uu now) = UserInDB.username u"
  "hashed_password (copy_update u uu now) = hashed_password u"
  "UserInDB.created_at (copy_update u uu now) = UserInDB.created_at u"
  by (simp_all add: copy_update_def)

lemma copy_update_sets:
  "UserInDB.email (copy_update u uu now) = apply_setting (UserUpdate.email uu) (UserInDB.email u)"
  "UserInDB.full_name (copy_update u uu now)
     = apply_setting (UserUpdate.full_name uu) (UserInDB.full_name u)"
  "UserInDB.role (copy_update u uu now) = apply_setting (UserUpdate.role uu) (UserInDB.role u)"
  "UserInDB.is_active (copy_update u uu now)
     = apply_setting (UserUpdate.is_active uu) (UserInDB.is_active u)"
  "UserInDB.updated_at (copy_update u uu now) = Some now"
  by (simp_all add: copy_update_def)

lemma map_list_update_same:
  "i < length xs \<Longrightarrow> f y = f (xs ! i) \<Longrightarrow> map f (xs[i := y]) = map f xs"
  by (simp add: list_eq_iff_nth_eq nth_list_update)

lemma update_user_None:
  "index_of_id (users self) i = None \<Longrightarrow> update_user now self i uu = (Inr None, self)"
  by (simp add: update_user_def)

lemma update_user_Some:
  assumes "index_of_id (users self) i = Some k"
  shows "update_user now self i uu =
           (case without_password (copy_update (users self ! k) uu now) of
              Inl e \<Rightarrow> Inl e | Inr view \<Rightarrow> Inr (Some view),
            self \<lparr> users := (users self)[k := copy_update (users self ! k) uu now] \<rparr>)"
  using assms by (simp add: update_user_def Let_def split: sum.splits)

subsection \<open>Deleting one element of a list\<close>

lemma set_delete_nth_subset: "set (take i xs @ drop (Suc i) xs) \<subseteq> set xs"
  using set_take_subset [of i xs] set_drop_subset [of "Suc i" xs] by auto

lemma sorted_wrt_delete_nth:
  "sorted_wrt P xs \<Longrightarrow> sorted_wrt P (take i xs @ drop (Suc i) xs)"
proof (induction xs arbitrary: i)
  case Nil
  then show ?case by simp
next
  case (Cons x xs)
  show ?case
  proof (cases i)
    case 0
    with Cons.prems show ?thesis by simp
  next
    case (Suc j)
    with Cons.prems Cons.IH [of j] set_delete_nth_subset [of j xs] show ?thesis by auto
  qed
qed

lemma distinct_delete_nth:
  "distinct xs \<Longrightarrow> distinct (take i xs @ drop (Suc i) xs)"
proof (induction xs arbitrary: i)
  case Nil
  then show ?case by simp
next
  case (Cons x xs)
  show ?case
  proof (cases i)
    case 0
    with Cons.prems show ?thesis by simp
  next
    case (Suc j)
    with Cons.prems Cons.IH [of j] set_delete_nth_subset [of j xs] show ?thesis by auto
  qed
qed

subsection \<open>The invariant of the reachable stores\<close>

lemma create_user_cases:
  "create_user gph now self uc =
     (if username uc \<in> UserInDB.username ` set (users self)
      then (Inl (HTTPException HTTP_400_BAD_REQUEST ''Username already registered''), self)
      else if Some (email uc) \<in> UserInDB.email ` set (users self)
      then (Inl (HTTPException HTTP_400_BAD_REQUEST ''Email already registered''), self)
      else
        (Inr \<lparr> username = username uc, email = email uc, full_name = full_name uc,
               role = role uc, is_active = is_active uc, ident = next_id self,
               created_at = now, updated_at = None \<rparr>,
         self \<lparr> users := users self @
                  [\<lparr> UserInDB.username = username uc, UserInDB.email = Some (email uc),
                     UserInDB.full_name = full_name uc, UserInDB.role = Some (role uc),
                     UserInDB.is_active = Some (is_active uc),
                     UserInDB.ident = next_id self, UserInDB.created_at = now,
                     UserInDB.updated_at = None,
                     hashed_password = gph (password uc) \<rparr>],
                next_id := next_id self + 1 \<rparr>))"
  by (simp add: create_user_def get_user_by_username_def get_user_by_email_def
      find_eq_None_image Let_def without_password_valid)

lemma store_inv_init:
  "UserService_init gph t1 t2 = Inr self \<Longrightarrow> store_inv self"
  by (auto simp add: UserService_init_def create_default_users_def create_user_cases
      admin_user_def regular_user_def store_inv_def)

lemma store_inv_create:
  assumes "store_inv self" and "create_user gph now self uc = (r, self')"
  shows "store_inv self'"
proof (cases "username uc \<in> UserInDB.username ` set (users self)
              \<or> Some (email uc) \<in> UserInDB.email ` set (users self)")
  case True
  with assms(2) have "self' = self"
    by (auto simp add: create_user_cases split: if_splits)
  with assms(1) show ?thesis by simp
next
  case False
  with assms(2)
  have self': "self' = self \<lparr> users := users self @
                  [\<lparr> UserInDB.username = username uc, UserInDB.email = Some (email uc),
                     UserInDB.full_name = full_name uc, UserInDB.role = Some (role uc),
                     UserInDB.is_active = Some (is_active uc),
                     UserInDB.ident = next_id self, UserInDB.created_at = now,
                     UserInDB.updated_at = None,
                     hashed_password = gph (password uc) \<rparr>],
                next_id := next_id self + 1 \<rparr>"
    by (simp add: create_user_cases)
  from assms(1) False show ?thesis
    unfolding self' store_inv_def
    by (fastforce simp add: sorted_wrt_append list_all_iff)
qed

lemma store_inv_update:
  assumes "store_inv self" and "update_user now self i uu = (r, self')"
  shows "store_inv self'"
proof (cases "index_of_id (users self) i")
  case None
  with assms show ?thesis by (simp add: update_user_None)
next
  case (Some k)
  from index_of_id_Some [OF Some] have k: "k < length (users self)" by simp
  define y where "y = copy_update (users self ! k) uu now"
  from assms(2) update_user_Some [OF Some, of now uu]
  have self': "self' = self \<lparr> users := (users self)[k := y] \<rparr>"
    by (simp add: y_def)
  have ids: "map UserInDB.ident ((users self)[k := y]) = map UserInDB.ident (users self)"
    and names: "map UserInDB.username ((users self)[k := y]) = map UserInDB.username (users self)"
    using k by (simp_all add: map_list_update_same y_def)
  have "list_all (\<lambda>user. UserInDB.ident user < next_id self) ((users self)[k := y])"
  proof -
    have "list_all (\<lambda>n. n < next_id self) (map UserInDB.ident ((users self)[k := y]))"
      using assms(1) unfolding ids by (simp add: store_inv_def list_all_iff)
    then show ?thesis by (simp add: list_all_iff)
  qed
  with assms(1) ids names show ?thesis
    unfolding self' store_inv_def by simp
qed

lemma store_inv_delete:
  assumes "store_inv self" and "delete_user self i = (r, self')"
  shows "store_inv self'"
proof (cases "index_of_id (users self) i")
  case None
  with assms show ?thesis by (simp add: delete_user_def)
next
  case (Some k)
  from assms(2) Some
  have self': "self' = self \<lparr> users := take k (users self) @ drop (Suc k) (users self) \<rparr>"
    by (simp add: delete_user_def)
  have m: "map f (take k (users self) @ drop (Suc k) (users self))
           = take k (map f (users self)) @ drop (Suc k) (map f (users self))"
    for f :: "UserInDB \<Rightarrow> 'b"
    by (simp add: take_map drop_map)
  let ?xs = "take k (users self) @ drop (Suc k) (users self)"
  from assms(1) have "sorted_wrt (<) (map UserInDB.ident ?xs)"
    unfolding m store_inv_def by (blast intro: sorted_wrt_delete_nth)
  moreover from assms(1) have "distinct (map UserInDB.username ?xs)"
    unfolding m store_inv_def by (blast intro: distinct_delete_nth)
  moreover from assms(1) set_delete_nth_subset [of k "users self"]
  have "list_all (\<lambda>user. UserInDB.ident user < next_id self) ?xs"
    unfolding store_inv_def list_all_iff by blast
  ultimately show ?thesis
    unfolding self' store_inv_def by simp
qed

lemma reachable_store_inv: "reachable self \<Longrightarrow> store_inv self"
  by (induction rule: reachable.induct)
    (blast intro: store_inv_init store_inv_create store_inv_update store_inv_delete)+

subsection \<open>Lookups\<close>

lemma nth_of_distinct_key:
  "distinct (map f xs) \<Longrightarrow> x \<in> set xs \<Longrightarrow> i < length xs \<Longrightarrow> f (xs ! i) = f x \<Longrightarrow> xs ! i = x"
  by (metis distinct_map inj_on_eq_iff nth_mem)

lemma find_list_update_distinct:
  assumes "distinct (map f xs)" and "i < length xs" and "f y = f (xs ! i)"
  shows "find (\<lambda>u. f u = f y) (xs[i := y]) = Some y"
proof -
  have "\<not> f (xs[i := y] ! j) = f y" if "j < i" for j
  proof -
    from that assms(2) have "(map f xs ! j = map f xs ! i) = (j = i)"
      by (intro nth_eq_iff_index_eq assms(1)) simp_all
    with that assms(2,3) show ?thesis by simp
  qed
  with assms(2) show ?thesis
    by (auto simp add: find_Some_iff intro!: exI [of _ i])
qed

lemma get_current_user_Inr:
  assumes "get_current_user vt self token = Inr cu"
  shows "\<exists>u0. get_user_by_username self (username cu) = Some u0 \<and> without_password u0 = Inr cu
              \<and> u0 \<in> set (users self)"
proof -
  from assms obtain n where n: "vt token = Inr n"
    by (cases "vt token") (simp_all add: get_current_user_def)
  with assms obtain u0 where u0: "get_user_by_username self n = Some u0"
    by (cases "get_user_by_username self n") (simp_all add: get_current_user_def)
  with assms n have cu: "without_password u0 = Inr cu"
    by (simp add: get_current_user_def)
  from u0 have "u0 \<in> set (users self)" and "UserInDB.username u0 = n"
    using find_Some_mem [of "\<lambda>user. UserInDB.username user = n" "users self" u0]
    by (simp_all add: get_user_by_username_def)
  with u0 cu without_password_Inr(4) [OF cu] show ?thesis by simp
qed

lemma verify_token_at_issue:
  "now' < now + ttl \<Longrightarrow> verify_token_at b now' (issue sub now ttl) = Inr sub"
  by (simp add: verify_token_at_def verify_def issue_def)

subsection \<open>The concrete states\<close>

lemma seeded_service_init:
  "UserService_init demo_get_password_hash 0 0 = Inr seeded_service"
  by (simp add: UserService_init_def create_default_users_def create_user_cases
      admin_user_def regular_user_def seeded_service_def demo_get_password_hash_def)

lemma reachable_seeded_service: "reachable seeded_service"
  by (rule reachable.init [OF seeded_service_init])

lemma reachable_with_alice: "reachable with_alice"
  unfolding with_alice_def
  by (rule reachable.create [OF reachable_seeded_service]) (rule surjective_pairing)

lemma reachable_admin_deactivated: "reachable admin_deactivated"
  unfolding admin_deactivated_def
  by (rule reachable.update [OF reachable_seeded_service]) (rule surjective_pairing)

lemma reachable_email_nulled: "reachable email_nulled"
  unfolding email_nulled_def
  by (rule reachable.update [OF reachable_seeded_service]) (rule surjective_pairing)

lemma users_with_alice:
  "users with_alice = users seeded_service @
     [\<lparr> UserInDB.username = ''alice'', UserInDB.email = Some ''alice@x.com'',
        UserInDB.full_name = None, UserInDB.role = Some USER, UserInDB.is_active = Some True,
        UserInDB.ident = 3, UserInDB.created_at = 7, UserInDB.updated_at = None,
        hashed_password = ''$demo$secret1'' \<rparr>]"
  by (simp add: with_alice_def alice_def create_user_cases seeded_service_def
      demo_get_password_hash_def)

lemma users_admin_deactivated:
  "users admin_deactivated =
     [\<lparr> UserInDB.username = ''admin'', UserInDB.email = Some ''admin@example.com'',
        UserInDB.full_name = Some ''Administrator'', UserInDB.role = Some ADMIN,
        UserInDB.is_active = Some False, UserInDB.ident = 1, UserInDB.created_at = 0,
        UserInDB.updated_at = Some 9, hashed_password = ''$demo$admin123'' \<rparr>,
      \<lparr> UserInDB.username = ''john_doe'', UserInDB.email = Some ''john@example.com'',
        UserInDB.full_name = Some ''John Doe'', UserInDB.role = Some USER,
        UserInDB.is_active = Some True, UserInDB.ident = 2, UserInDB.created_at = 0,
        UserInDB.updated_at = None, hashed_password = ''$demo$user123'' \<rparr>]"
  by (simp add: admin_deactivated_def update_user_def seeded_service_def copy_update_def
      apply_setting_def Let_def split: sum.splits)

lemma users_email_nulled:
  "users email_nulled =
     [\<lparr> UserInDB.username = ''admin'', UserInDB.email = Some ''admin@example.com'',
        UserInDB.full_name = Some ''Administrator'', UserInDB.role = Some ADMIN,
        UserInDB.is_active = Some True, UserInDB.ident = 1, UserInDB.created_at = 0,
        UserInDB.updated_at = None, hashed_password = ''$demo$admin123'' \<rparr>,
      \<lparr> UserInDB.username = ''john_doe'', UserInDB.email = None,
        UserInDB.full_name = Some ''John Doe'', UserInDB.role = Some USER,
        UserInDB.is_active = Some True, UserInDB.ident = 2, UserInDB.created_at = 0,
        UserInDB.updated_at = Some 9, hashed_password = ''$demo$user123'' \<rparr>]"
  by (simp add: email_nulled_def update_user_def seeded_service_def copy_update_def
      apply_setting_def Let_def split: sum.splits)

section \<open>Registration and authentication\<close>

text \<open>
  C1. For every username, email and password of at least six characters such that no
  stored account has that username or that email, registration succeeds, and
  authenticating afterwards with the same username and password succeeds and returns
  the account just created. The hasher is a parameter; all that is asked of it is that
  the digest stored by this registration verifies against its plaintext.
\<close>

theorem register_then_authenticate:
  assumes "6 \<le> length pw"
    and "un \<notin> UserInDB.username ` set (users self)"
    and "Some em \<notin> UserInDB.email ` set (users self)"
    and "verify_password pw (get_password_hash pw)"
  shows "\<exists>v self'. register_user get_password_hash now self un em pw fn ro ac = (Inr (Inr v), self')
           \<and> username v = un
           \<and> (\<exists>u. authenticate_user verify_password self' un pw = Some u
                  \<and> UserInDB.username u = un \<and> without_password u = Inr v)"
  using assms
  by (simp add: register_user_def UserCreate_init_def validate_password_def create_user_cases
      get_user_by_username_def authenticate_user_def find_append_fresh without_password_valid)

theorem register_then_authenticate_witness:
  "\<exists>v self'.
      register_user demo_get_password_hash 7 seeded_service
        ''alice'' ''alice@x.com'' ''secret1'' None None None = (Inr (Inr v), self')
      \<and> username v = ''alice''
      \<and> (\<exists>u. authenticate_user demo_verify_password self' ''alice'' ''secret1'' = Some u
             \<and> UserInDB.username u = ''alice'' \<and> without_password u = Inr v)"
  using register_then_authenticate
    [where pw = "''secret1''" and un = "''alice''" and em = "''alice@x.com''"
       and self = seeded_service and verify_password = demo_verify_password
       and get_password_hash = demo_get_password_hash and now = 7
       and fn = None and ro = None and ac = None]
  by (simp add: seeded_service_def demo_verify_password_def)

text \<open>
  C6. \<^verbatim>\<open>create_user\<close> checks the username before the email: an input whose username
  is that of a stored account fails with "Username already registered" whether or not
  its email collides too, an input whose email alone collides fails with "Email already
  registered", and a failing call returns the store it was given.
\<close>

theorem create_user_duplicate_order:
  "(username uc \<in> UserInDB.username ` set (users self) \<longrightarrow>
      create_user gph now self uc =
        (Inl (HTTPException HTTP_400_BAD_REQUEST ''Username already registered''), self))
   \<and> (username uc \<notin> UserInDB.username ` set (users self)
        \<and> Some (email uc) \<in> UserInDB.email ` set (users self) \<longrightarrow>
      create_user gph now self uc =
        (Inl (HTTPException HTTP_400_BAD_REQUEST ''Email already registered''), self))
   \<and> (\<forall>e self'. create_user gph now self uc = (Inl e, self') \<longrightarrow> self' = self)"
  by (auto simp add: create_user_cases)

theorem create_user_duplicate_order_witness:
  "create_user demo_get_password_hash 7 seeded_service
      \<lparr> username = ''admin'', email = ''john@example.com'', full_name = None,
        role = USER, is_active = True, password = ''secret1'' \<rparr>
     = (Inl (HTTPException HTTP_400_BAD_REQUEST ''Username already registered''), seeded_service)
   \<and> create_user demo_get_password_hash 7 seeded_service
      \<lparr> username = ''alice'', email = ''john@example.com'', full_name = None,
        role = USER, is_active = True, password = ''secret1'' \<rparr>
     = (Inl (HTTPException HTTP_400_BAD_REQUEST ''Email already registered''), seeded_service)"
  using
    create_user_duplicate_order
      [where self = seeded_service and gph = demo_get_password_hash and now = 7
         and uc = "\<lparr> username = ''admin'', email = ''john@example.com'', full_name = None,
                     role = USER, is_active = True, password = ''secret1'' \<rparr>"]
    create_user_duplicate_order
      [where self = seeded_service and gph = demo_get_password_hash and now = 7
         and uc = "\<lparr> username = ''alice'', email = ''john@example.com'', full_name = None,
                     role = USER, is_active = True, password = ''secret1'' \<rparr>"]
  by (simp add: seeded_service_def)

section \<open>The initial store\<close>

text \<open>
  C9. A freshly constructed store is not empty: the constructor succeeds and leaves
  exactly two accounts, the active admin \<open>admin\<close> with id 1 and the active user
  \<open>john_doe\<close> with id 2, and the counter at 3, so that the first account registered
  from outside (any input that collides with neither) receives id 3.
\<close>

theorem fresh_store_seeded:
  "\<exists>self. UserService_init gph t1 t2 = Inr self
     \<and> users self =
         [\<lparr> UserInDB.username = ''admin'', UserInDB.email = Some ''admin@example.com'',
            UserInDB.full_name = Some ''Administrator'', UserInDB.role = Some ADMIN,
            UserInDB.is_active = Some True, UserInDB.ident = 1, UserInDB.created_at = t1,
            UserInDB.updated_at = None, hashed_password = gph ''admin123'' \<rparr>,
          \<lparr> UserInDB.username = ''john_doe'', UserInDB.email = Some ''john@example.com'',
            UserInDB.full_name = Some ''John Doe'', UserInDB.role = Some USER,
            UserInDB.is_active = Some True, UserInDB.ident = 2, UserInDB.created_at = t2,
            UserInDB.updated_at = None, hashed_password = gph ''user123'' \<rparr>]
     \<and> next_id self = 3
     \<and> (\<forall>h now uc.
           username uc \<notin> {''admin'', ''john_doe''}
           \<and> email uc \<notin> {''admin@example.com'', ''john@example.com''}
           \<longrightarrow> (\<exists>v self'. create_user h now self uc = (Inr v, self') \<and> ident v = 3))"
  by (simp add: UserService_init_def create_default_users_def create_user_cases
      admin_user_def regular_user_def)

theorem fresh_store_seeded_witness:
  "\<exists>self. UserService_init demo_get_password_hash 0 0 = Inr self
     \<and> length (users self) = 2 \<and> next_id self = 3
     \<and> (\<exists>v self'.
           create_user demo_get_password_hash 7 self
             \<lparr> username = ''alice'', email = ''alice@x.com'', full_name = None,
               role = USER, is_active = True, password = ''secret1'' \<rparr> = (Inr v, self')
           \<and> ident v = 3)"
proof -
  let ?uc = "\<lparr> username = ''alice'', email = ''alice@x.com'', full_name = None,
               role = USER, is_active = True, password = ''secret1'' \<rparr>"
  from fresh_store_seeded [of demo_get_password_hash 0 0]
  obtain self where init: "UserService_init demo_get_password_hash 0 0 = Inr self"
    and two: "length (users self) = 2" and counter: "next_id self = 3"
    and first: "\<forall>h now uc.
           username uc \<notin> {''admin'', ''john_doe''}
           \<and> email uc \<notin> {''admin@example.com'', ''john@example.com''}
           \<longrightarrow> (\<exists>v self'. create_user h now self uc = (Inr v, self') \<and> ident v = 3)"
    by auto
  from first have
    "username ?uc \<notin> {''admin'', ''john_doe''}
       \<and> email ?uc \<notin> {''admin@example.com'', ''john@example.com''}
     \<longrightarrow> (\<exists>v self'. create_user demo_get_password_hash 7 self ?uc = (Inr v, self') \<and> ident v = 3)"
    by blast
  then have "\<exists>v self'. create_user demo_get_password_hash 7 self ?uc = (Inr v, self') \<and> ident v = 3"
    by simp
  with init two counter show ?thesis by blast
qed

section \<open>Failures of authentication\<close>

text \<open>
  C2, as the code has it. \<^verbatim>\<open>authenticate_user\<close> returns an optional account and has one
  failure, \<^verbatim>\<open>None\<close>: for every username that no stored account has it returns
  \<^verbatim>\<open>None\<close>, whatever the password, and for every username that is found with a
  password that does not verify against the stored hash it returns \<^verbatim>\<open>None\<close> too; the
  login endpoint answers both with the same 401 "Incorrect username or password".
\<close>

theorem authenticate_user_failures:
  "(name \<notin> UserInDB.username ` set (users self) \<longrightarrow> authenticate_user vp self name pw = None)
   \<and> (\<forall>u. get_user_by_username self name = Some u \<and> \<not> vp pw (hashed_password u)
          \<longrightarrow> authenticate_user vp self name pw = None)
   \<and> (authenticate_user vp self name pw = None \<longrightarrow>
        login_for_access_token vp cat self name pw =
          Inl (HTTPException HTTP_401_UNAUTHORIZED ''Incorrect username or password''))"
  by (simp add: authenticate_user_def get_user_by_username_def find_fresh
      login_for_access_token_def)

theorem authenticate_user_failures_witness:
  "authenticate_user demo_verify_password with_alice ''bob'' ''secret1'' = None
   \<and> authenticate_user demo_verify_password with_alice ''alice'' ''wrong'' = None
   \<and> login_for_access_token demo_verify_password (create_access_token_at 100)
         with_alice ''bob'' ''secret1''
       = Inl (HTTPException HTTP_401_UNAUTHORIZED ''Incorrect username or password'')
   \<and> login_for_access_token demo_verify_password (create_access_token_at 100)
         with_alice ''alice'' ''wrong''
       = Inl (HTTPException HTTP_401_UNAUTHORIZED ''Incorrect username or password'')"
proof -
  let ?a = "\<lparr> UserInDB.username = ''alice'', UserInDB.email = Some ''alice@x.com'',
        UserInDB.full_name = None, UserInDB.role = Some USER, UserInDB.is_active = Some True,
        UserInDB.ident = 3, UserInDB.created_at = 7, UserInDB.updated_at = None,
        hashed_password = ''$demo$secret1'' \<rparr>"
  have a: "get_user_by_username with_alice ''alice'' = Some ?a"
    by (simp add: get_user_by_username_def users_with_alice seeded_service_def)
  have b: "''bob'' \<notin> UserInDB.username ` set (users with_alice)"
    by (simp add: users_with_alice seeded_service_def)
  have w: "\<not> demo_verify_password ''wrong'' (hashed_password ?a)"
    by (simp add: demo_verify_password_def demo_get_password_hash_def)
  note bob = authenticate_user_failures [of "''bob''" with_alice demo_verify_password "''secret1''"
      "create_access_token_at 100"]
  note wrong = authenticate_user_failures [of "''alice''" with_alice demo_verify_password "''wrong''"
      "create_access_token_at 100"]
  from bob b have 1: "authenticate_user demo_verify_password with_alice ''bob'' ''secret1'' = None"
    by simp
  from wrong a w have 2: "authenticate_user demo_verify_password with_alice ''alice'' ''wrong'' = None"
    by simp
  from bob 1 wrong 2 show ?thesis by simp
qed

text \<open>The claim that the two failures are distinct outcomes (\<open>NotFound\<close> and
  \<open>BadPassword\<close>) fails: an unknown username and a wrong password for \<open>admin\<close> give
  the same result.\<close>

theorem authenticate_user_same_failure:
  "authenticate_user demo_verify_password seeded_service ''nobody'' ''admin123'' = None
   \<and> authenticate_user demo_verify_password seeded_service ''admin'' ''wrong-password'' = None
   \<and> authenticate_user demo_verify_password seeded_service ''nobody'' ''admin123''
       = authenticate_user demo_verify_password seeded_service ''admin'' ''wrong-password''"
  by (simp add: authenticate_user_def get_user_by_username_def seeded_service_def
      demo_verify_password_def demo_get_password_hash_def)

section \<open>The access guard\<close>

text \<open>
  C5, as the code has it. The dependency of an admin-gated operation runs the
  active-check before the role-check, and the active-check raises status 400 with
  detail "Inactive user": every inactive principal, admin or not, is rejected by an
  admin-gated operation with that 400 and the store is left as it was; the 403 "Not
  enough permissions" of the role-check is what an active principal who is not an admin
  gets.
\<close>

theorem inactive_rejected_before_role_check:
  assumes "get_current_user vt self token = Inr cu"
  shows "(\<not> is_active cu \<longrightarrow>
            depends_admin_user vt self token = Inl (HTTPException 400 ''Inactive user'')
            \<and> api_create_user vt gph now self token uc = (Inl (HTTPException 400 ''Inactive user''), self)
            \<and> api_delete_user vt self token i = (Inl (HTTPException 400 ''Inactive user''), self))
         \<and> (is_active cu \<and> role cu \<noteq> ADMIN \<longrightarrow>
            depends_admin_user vt self token
              = Inl (HTTPException HTTP_403_FORBIDDEN ''Not enough permissions''))"
  using assms
  by (simp add: depends_admin_user_def depends_current_active_user_def
      get_current_active_user_def get_admin_user_def api_create_user_def api_delete_user_def)

theorem inactive_rejected_before_role_check_witness:
  "depends_admin_user (verify_token_at False 200) admin_deactivated (issue ''admin'' 100 1800)
     = Inl (HTTPException 400 ''Inactive user'')
   \<and> api_create_user (verify_token_at False 200) demo_get_password_hash 300 admin_deactivated
       (issue ''admin'' 100 1800) alice
     = (Inl (HTTPException 400 ''Inactive user''), admin_deactivated)
   \<and> api_delete_user (verify_token_at False 200) admin_deactivated (issue ''admin'' 100 1800) 2
     = (Inl (HTTPException 400 ''Inactive user''), admin_deactivated)
   \<and> depends_admin_user (verify_token_at False 200) admin_deactivated (issue ''john_doe'' 100 1800)
     = Inl (HTTPException HTTP_403_FORBIDDEN ''Not enough permissions'')"
proof -
  let ?admin = "\<lparr> username = ''admin'', email = ''admin@example.com'',
                  full_name = Some ''Administrator'', role = ADMIN, is_active = False,
                  ident = 1, created_at = 0, updated_at = Some 9 \<rparr>"
  let ?john = "\<lparr> username = ''john_doe'', email = ''john@example.com'',
                 full_name = Some ''John Doe'', role = USER, is_active = True,
                 ident = 2, created_at = 0, updated_at = None \<rparr>"
  have a: "get_current_user (verify_token_at False 200) admin_deactivated
             (issue ''admin'' 100 1800) = Inr ?admin"
    by (simp add: get_current_user_def verify_token_at_issue get_user_by_username_def
        users_admin_deactivated without_password_record)
  have j: "get_current_user (verify_token_at False 200) admin_deactivated
             (issue ''john_doe'' 100 1800) = Inr ?john"
    by (simp add: get_current_user_def verify_token_at_issue get_user_by_username_def
        users_admin_deactivated without_password_record)
  from inactive_rejected_before_role_check [OF a, of demo_get_password_hash 300 alice 2]
    inactive_rejected_before_role_check [OF j, of demo_get_password_hash 300 alice 2]
  show ?thesis by simp
qed

text \<open>The claim that the active-check fails \<open>Forbidden\<close> fails: for an inactive admin it
  raises 400, which is not the code's \<^verbatim>\<open>HTTP_403_FORBIDDEN\<close>.\<close>

theorem inactive_admin_is_400:
  "get_current_active_user
     \<lparr> username = ''admin'', email = ''admin@example.com'',
       full_name = Some ''Administrator'', role = ADMIN, is_active = False,
       ident = 1, created_at = 0, updated_at = Some 9 \<rparr>
     = Inl (HTTPException 400 ''Inactive user'')
   \<and> status_code (HTTPException 400 ''Inactive user'') \<noteq> HTTP_403_FORBIDDEN"
  by (simp add: get_current_active_user_def HTTP_403_FORBIDDEN_def)

section \<open>Uniqueness of emails\<close>

text \<open>
  C3. \<^verbatim>\<open>create_user\<close> refuses an email that a stored account has, and by
  \<open>reachable_store_inv\<close> no two accounts of a reachable store share a username or an
  id. \<^verbatim>\<open>update_user\<close> writes the email it is given without that check: from the seeded
  store, setting the email of account 2 to the admin's leaves a reachable store in
  which two accounts share an email.
\<close>

theorem update_user_duplicates_email:
  "reachable (snd (update_user 9 seeded_service 2
       \<lparr> UserUpdate.email = Given (Some ''admin@example.com''), UserUpdate.full_name = Unset,
         UserUpdate.role = Unset, UserUpdate.is_active = Unset \<rparr>))
   \<and> map UserInDB.email (users (snd (update_user 9 seeded_service 2
       \<lparr> UserUpdate.email = Given (Some ''admin@example.com''), UserUpdate.full_name = Unset,
         UserUpdate.role = Unset, UserUpdate.is_active = Unset \<rparr>)))
     = [Some ''admin@example.com'', Some ''admin@example.com'']
   \<and> \<not> distinct (map UserInDB.email (users (snd (update_user 9 seeded_service 2
       \<lparr> UserUpdate.email = Given (Some ''admin@example.com''), UserUpdate.full_name = Unset,
         UserUpdate.role = Unset, UserUpdate.is_active = Unset \<rparr>))))"
proof -
  let ?uu = "\<lparr> UserUpdate.email = Given (Some ''admin@example.com''),
         UserUpdate.full_name = Unset, UserUpdate.role = Unset, UserUpdate.is_active = Unset \<rparr>"
  have "reachable (snd (update_user 9 seeded_service 2 ?uu))"
    by (rule reachable.update [OF reachable_seeded_service]) (rule surjective_pairing)
  moreover have "map UserInDB.email (users (snd (update_user 9 seeded_service 2 ?uu)))
     = [Some ''admin@example.com'', Some ''admin@example.com'']"
    by (simp add: update_user_def seeded_service_def copy_update_def apply_setting_def Let_def
        split: sum.splits)
  ultimately show ?thesis by simp
qed

section \<open>Token round trip\<close>

text \<open>
  The round trip of the codec, for either reading of the expiry: a token issued at
  \<open>now\<close> for \<open>ttl\<close> verifies to its subject at every \<open>now' < now + ttl\<close> and fails
  \<open>Expired\<close> at every \<open>now' > now + ttl\<close>; at \<open>now' = now + ttl\<close> it is the reading that
  decides.
\<close>

lemma verify_issue_cases:
  "verify b (issue sub now ttl) now' =
     (if now' < now + ttl then Inr sub
      else if now + ttl < now' then Inl Expired
      else if b then Inl Expired else Inr sub)"
  by (simp add: verify_def issue_def)

section \<open>Views of an account\<close>

text \<open>
  C4. Every response-facing view of an account omits the password hash: whenever
  \<^verbatim>\<open>create_user\<close>, \<^verbatim>\<open>get_user_by_id\<close>, \<^verbatim>\<open>get_users\<close> or \<^verbatim>\<open>update_user\<close> returns a view, for
  every store and every argument, the dictionary of the view is the dictionary of the
  stored account it stands for (the one appended, the first with the id, those of the
  slice, the one updated) with the key \<^verbatim>\<open>hashed_password\<close> excluded and nothing else
  changed, and so has no such key.
\<close>

theorem views_omit_hashed_password:
  "(\<forall>v self'. create_user gph now self uc = (Inr v, self') \<longrightarrow>
       (\<exists>u. users self' = users self @ [u]
            \<and> User_dict v = dict_exclude [''hashed_password''] (UserInDB_dict u))
       \<and> ''hashed_password'' \<notin> fst ` set (User_dict v))
   \<and> (\<forall>v. get_user_by_id self i = Inr (Some v) \<longrightarrow>
       (\<exists>u. find (\<lambda>user. UserInDB.ident user = i) (users self) = Some u
            \<and> User_dict v = dict_exclude [''hashed_password''] (UserInDB_dict u))
       \<and> ''hashed_password'' \<notin> fst ` set (User_dict v))
   \<and> (\<forall>vs. get_users self skip limit = Inr vs \<longrightarrow>
       map User_dict vs
         = map (\<lambda>u. dict_exclude [''hashed_password''] (UserInDB_dict u))
             (py_slice (users self) skip (skip + limit))
       \<and> (\<forall>v \<in> set vs. ''hashed_password'' \<notin> fst ` set (User_dict v)))
   \<and> (\<forall>v self'. update_user now' self j uu = (Inr (Some v), self') \<longrightarrow>
       (\<exists>k. index_of_id (users self) j = Some k
            \<and> users self' = (users self)[k := copy_update (users self ! k) uu now']
            \<and> User_dict v = dict_exclude [''hashed_password''] (UserInDB_dict (users self' ! k)))
       \<and> ''hashed_password'' \<notin> fst ` set (User_dict v))"
proof (intro conjI allI impI ballI)
  fix v self'
  assume c: "create_user gph now self uc = (Inr v, self')"
  let ?u = "\<lparr> UserInDB.username = username uc, UserInDB.email = Some (email uc),
              UserInDB.full_name = full_name uc, UserInDB.role = Some (role uc),
              UserInDB.is_active = Some (is_active uc),
              UserInDB.ident = next_id self, UserInDB.created_at = now,
              UserInDB.updated_at = None, hashed_password = gph (password uc) \<rparr>"
  from c have "users self' = users self @ [?u]" and "without_password ?u = Inr v"
    by (auto simp add: create_user_cases without_password_record split: if_splits)
  with User_dict_without_password [of ?u v]
  show "\<exists>u. users self' = users self @ [u]
            \<and> User_dict v = dict_exclude [''hashed_password''] (UserInDB_dict u)"
    by blast
  then show "''hashed_password'' \<notin> fst ` set (User_dict v)"
    using no_hash_in_dict_exclude by metis
next
  fix v
  assume g: "get_user_by_id self i = Inr (Some v)"
  then obtain u where u: "find (\<lambda>user. UserInDB.ident user = i) (users self) = Some u"
    and "without_password u = Inr v"
    by (auto simp add: get_user_by_id_def split: option.splits sum.splits)
  with User_dict_without_password [of u v]
  show "\<exists>u. find (\<lambda>user. UserInDB.ident user = i) (users self) = Some u
            \<and> User_dict v = dict_exclude [''hashed_password''] (UserInDB_dict u)"
    by blast
  then show "''hashed_password'' \<notin> fst ` set (User_dict v)"
    using no_hash_in_dict_exclude by metis
next
  fix vs
  assume l: "get_users self skip limit = Inr vs"
  let ?xs = "py_slice (users self) skip (skip + limit)"
  from l have vs: "views ?xs = Inr vs" by (simp add: get_users_def)
  from views_Inr [OF vs] have len: "length vs = length ?xs" by (metis length_map)
  have nth: "User_dict (vs ! n) = dict_exclude [''hashed_password''] (UserInDB_dict (?xs ! n))"
    if "n < length ?xs" for n
  proof -
    from views_Inr [OF vs] have "map Inr vs ! n = map without_password ?xs ! n" by simp
    with that len have "without_password (?xs ! n) = Inr (vs ! n)" by simp
    then show ?thesis by (rule User_dict_without_password)
  qed
  with len show eq: "map User_dict vs
         = map (\<lambda>u. dict_exclude [''hashed_password''] (UserInDB_dict u)) ?xs"
    by (simp add: list_eq_iff_nth_eq)
  fix v
  assume "v \<in> set vs"
  then obtain n where "n < length vs" "v = vs ! n" by (auto simp add: in_set_conv_nth)
  with nth [of n] len show "''hashed_password'' \<notin> fst ` set (User_dict v)"
    using no_hash_in_dict_exclude by simp
next
  fix v self'
  assume u: "update_user now' self j uu = (Inr (Some v), self')"
  then obtain k where k: "index_of_id (users self) j = Some k"
    by (cases "index_of_id (users self) j") (simp_all add: update_user_None)
  from index_of_id_Some [OF k] have klen: "k < length (users self)" by simp
  let ?y = "copy_update (users self ! k) uu now'"
  from u update_user_Some [OF k, of now' uu]
  have self': "users self' = (users self)[k := ?y]" and "without_password ?y = Inr v"
    by (auto split: sum.splits)
  with User_dict_without_password [of ?y v] klen k
  show "\<exists>k. index_of_id (users self) j = Some k
            \<and> users self' = (users self)[k := copy_update (users self ! k) uu now']
            \<and> User_dict v = dict_exclude [''hashed_password''] (UserInDB_dict (users self' ! k))"
    by simp
  then show "''hashed_password'' \<notin> fst ` set (User_dict v)"
    using no_hash_in_dict_exclude by metis
qed

theorem views_omit_hashed_password_witness:
  "(\<exists>v self'. create_user demo_get_password_hash 7 seeded_service alice = (Inr v, self')
        \<and> (\<exists>u. users self' = users seeded_service @ [u]
               \<and> User_dict v = dict_exclude [''hashed_password''] (UserInDB_dict u))
        \<and> ''hashed_password'' \<notin> fst ` set (User_dict v))
   \<and> (\<exists>v. get_user_by_id seeded_service 1 = Inr (Some v)
        \<and> ''hashed_password'' \<notin> fst ` set (User_dict v))
   \<and> (\<exists>vs. get_users seeded_service 0 100 = Inr vs \<and> length vs = 2
        \<and> list_all (\<lambda>v. ''hashed_password'' \<notin> fst ` set (User_dict v)) vs)
   \<and> (\<exists>v self'. update_user 9 seeded_service 2
          \<lparr> UserUpdate.email = Unset, UserUpdate.full_name = Given (Some ''Johnny''),
            UserUpdate.role = Unset, UserUpdate.is_active = Unset \<rparr> = (Inr (Some v), self')
        \<and> ''hashed_password'' \<notin> fst ` set (User_dict v))"
proof -
  let ?uu = "\<lparr> UserUpdate.email = Unset, UserUpdate.full_name = Given (Some ''Johnny''),
            UserUpdate.role = Unset, UserUpdate.is_active = Unset \<rparr>"
  note t = views_omit_hashed_password
    [where gph = demo_get_password_hash and now = 7 and self = seeded_service and uc = alice
       and i = 1 and skip = 0 and limit = 100 and now' = 9 and j = 2 and uu = ?uu]
  have "\<exists>v self'. create_user demo_get_password_hash 7 seeded_service alice = (Inr v, self')"
    by (simp add: create_user_cases seeded_service_def alice_def)
  then have c: "\<exists>v self'. create_user demo_get_password_hash 7 seeded_service alice = (Inr v, self')
        \<and> (\<exists>u. users self' = users seeded_service @ [u]
               \<and> User_dict v = dict_exclude [''hashed_password''] (UserInDB_dict u))
        \<and> ''hashed_password'' \<notin> fst ` set (User_dict v)"
    using t [THEN conjunct1] by metis
  have "\<exists>v. get_user_by_id seeded_service 1 = Inr (Some v)"
    by (simp add: get_user_by_id_def seeded_service_def without_password_record)
  then have g: "\<exists>v. get_user_by_id seeded_service 1 = Inr (Some v)
        \<and> ''hashed_password'' \<notin> fst ` set (User_dict v)"
    using t [THEN conjunct2, THEN conjunct1] by metis
  have "\<exists>vs. get_users seeded_service 0 100 = Inr vs \<and> length vs = 2"
    by (simp add: get_users_def py_slice_def seeded_service_def without_password_record)
  then have l: "\<exists>vs. get_users seeded_service 0 100 = Inr vs \<and> length vs = 2
        \<and> list_all (\<lambda>v. ''hashed_password'' \<notin> fst ` set (User_dict v)) vs"
    unfolding list_all_iff using t [THEN conjunct2, THEN conjunct2, THEN conjunct1] by metis
  have "\<exists>v self'. update_user 9 seeded_service 2 ?uu = (Inr (Some v), self')"
    by (simp add: update_user_def seeded_service_def Let_def copy_update_def apply_setting_def
        without_password_record)
  then have u: "\<exists>v self'. update_user 9 seeded_service 2 ?uu = (Inr (Some v), self')
        \<and> ''hashed_password'' \<notin> fst ` set (User_dict v)"
    using t [THEN conjunct2, THEN conjunct2, THEN conjunct2] by metis
  from c g l u show ?thesis by (intro conjI)
qed

section \<open>Pagination\<close>

text \<open>
  What \<^verbatim>\<open>get_users\<close> does for \<open>skip \<ge> 0\<close> and \<open>limit \<ge> 0\<close>: past the end of the list it
  returns the empty list, on every store; and when the accounts of the requested range
  are valid it returns their views, the contiguous part of the account list that starts
  at index \<open>skip\<close> and has at most \<open>limit\<close> elements, in a reachable store by
  increasing id, which is the order of creation.
\<close>

lemma get_users_beyond_end:
  assumes "0 \<le> skip" and "0 \<le> limit" and "int (length (users self)) \<le> skip"
  shows "get_users self skip limit = Inr []"
  using assms by (simp add: get_users_def py_slice_nonneg)

lemma get_users_pagination:
  assumes "0 \<le> skip" and "0 \<le> limit"
    and "list_all valid_account (take (nat limit) (drop (nat skip) (users self)))"
  shows "\<exists>vs. get_users self skip limit = Inr vs
           \<and> map Inr vs = map without_password (take (nat limit) (drop (nat skip) (users self)))
           \<and> length vs = min (nat limit) (length (users self) - nat skip)
           \<and> (reachable self \<longrightarrow> sorted_wrt (<) (map ident vs))"
proof -
  let ?xs = "take (nat limit) (drop (nat skip) (users self))"
  have eq: "get_users self skip limit = views ?xs"
    using assms(1,2) by (simp add: get_users_def py_slice_nonneg)
  from assms(3) obtain vs where vs: "views ?xs = Inr vs"
    using views_Inr_iff [of ?xs] by blast
  note m = views_Inr [OF vs]
  from m have "length vs = length ?xs" by (metis length_map)
  then have len: "length vs = min (nat limit) (length (users self) - nat skip)"
    by (simp add: min.commute)
  have "sorted_wrt (<) (map ident vs)" if "reachable self"
  proof -
    from reachable_store_inv [OF that] have "sorted_wrt (<) (map UserInDB.ident (users self))"
      by (simp add: store_inv_def)
    then have "sorted_wrt (<) (take (nat limit) (drop (nat skip) (map UserInDB.ident (users self))))"
      by (intro sorted_wrt_take sorted_wrt_drop)
    then show ?thesis
      by (simp add: views_ident [OF vs] take_map drop_map)
  qed
  with eq vs m len show ?thesis by simp
qed

text \<open>The store \<open>email_nulled\<close> is what \<open>john_doe\<close> leaves by sending that body for
  his own account: the endpoint raises, after the store has changed.\<close>

lemma email_nulled_by_endpoint:
  "api_update_user (verify_token_at False 200) 9 seeded_service (issue ''john_doe'' 100 1800) 2
     \<lparr> UserUpdate.email = Given None, UserUpdate.full_name = Unset,
       UserUpdate.role = Unset, UserUpdate.is_active = Unset \<rparr>
   = (Inl ValidationError, email_nulled)"
proof -
  let ?uu = "\<lparr> UserUpdate.email = Given None, UserUpdate.full_name = Unset,
       UserUpdate.role = Unset, UserUpdate.is_active = Unset \<rparr>"
  have k: "index_of_id (users seeded_service) 2 = Some 1"
    by (simp add: seeded_service_def)
  have "\<not> valid_account (copy_update (users seeded_service ! 1) ?uu 9)"
    by (simp add: valid_account_def copy_update_sets apply_setting_def)
  then have "without_password (copy_update (users seeded_service ! 1) ?uu 9) = Inl ValidationError"
    by (rule without_password_invalid)
  with update_user_Some [OF k, of 9 ?uu]
  have u: "update_user 9 seeded_service 2 ?uu = (Inl ValidationError, email_nulled)"
    by (simp add: email_nulled_def)
  have "depends_current_active_user (verify_token_at False 200) seeded_service
          (issue ''john_doe'' 100 1800)
        = Inr \<lparr> username = ''john_doe'', email = ''john@example.com'',
               full_name = Some ''John Doe'', role = USER, is_active = True,
               ident = 2, created_at = 0, updated_at = None \<rparr>"
    by (simp add: depends_current_active_user_def get_current_active_user_def
        get_current_user_def verify_token_at_issue get_user_by_username_def
        seeded_service_def without_password_record)
  with u show ?thesis by (simp add: api_update_user_def)
qed

text \<open>
  C8. The claim holds on the stores above and fails on a reachable one. After
  \<^verbatim>\<open>PUT /users/2\<close> with the body \<^verbatim>\<open>{"email": null}\<close>, \<^verbatim>\<open>update_user\<close> has stored an account
  whose email is \<^verbatim>\<open>None\<close>, and \<^verbatim>\<open>get_users\<close> raises \<^verbatim>\<open>ValidationError\<close> for every range
  that covers it, where the claim has it return the accounts of the range.
\<close>

theorem get_users_raises_after_null_email:
  "reachable email_nulled
   \<and> snd (api_update_user (verify_token_at False 200) 9 seeded_service
            (issue ''john_doe'' 100 1800) 2
            \<lparr> UserUpdate.email = Given None, UserUpdate.full_name = Unset,
              UserUpdate.role = Unset, UserUpdate.is_active = Unset \<rparr>) = email_nulled
   \<and> length (users email_nulled) = 2
   \<and> get_users email_nulled 0 100 = Inl ValidationError
   \<and> get_users email_nulled 1 1 = Inl ValidationError"
proof -
  have "\<not> valid_account (users email_nulled ! 1)"
    by (simp add: users_email_nulled valid_account_def)
  then have "without_password (users email_nulled ! 1) = Inl ValidationError"
    by (rule without_password_invalid)
  then have "get_users email_nulled 0 100 = Inl ValidationError"
    and "get_users email_nulled 1 1 = Inl ValidationError"
    by (simp_all add: get_users_def py_slice_def users_email_nulled without_password_record)
  with reachable_email_nulled show ?thesis
    by (simp add: users_email_nulled email_nulled_by_endpoint)
qed

section \<open>Updating one's own role\<close>

text \<open>
  C10. For every active principal whose role is \<open>USER\<close> or \<open>MODERATOR\<close>, calling the
  update endpoint on the principal's own id with \<^verbatim>\<open>role = admin\<close> stores role \<open>ADMIN\<close> in
  the account under that id. When the request sets neither \<^verbatim>\<open>email\<close> nor \<^verbatim>\<open>is_active\<close>
  to \<^verbatim>\<open>null\<close>, and the store is reachable or holds valid accounts only, the call
  succeeds, the returned view has role \<open>ADMIN\<close>, and so has the view that
  \<^verbatim>\<open>get_user_by_id\<close> returns afterwards; in a reachable store the account is the one with
  the principal's username.
\<close>

theorem self_promotion_to_admin:
  assumes "get_current_user vt self token = Inr cu"
    and "is_active cu"
    and "role cu = USER \<or> role cu = MODERATOR"
    and "UserUpdate.role uu = Given (Some ADMIN)"
  shows "\<exists>r self'. api_update_user vt now self token (ident cu) uu = (r, self')
           \<and> (\<exists>u. find (\<lambda>user. UserInDB.ident user = ident cu) (users self') = Some u
                  \<and> UserInDB.role u = Some ADMIN)
           \<and> (UserUpdate.email uu \<noteq> Given None \<and> UserUpdate.is_active uu \<noteq> Given None
                \<and> (reachable self \<or> list_all valid_account (users self)) \<longrightarrow>
                (\<exists>v. r = Inr v \<and> role v = ADMIN \<and> ident v = ident cu)
                \<and> (\<exists>v'. get_user_by_id self' (ident cu) = Inr (Some v') \<and> role v' = ADMIN))
           \<and> (reachable self \<longrightarrow>
                (\<exists>u. get_user_by_username self' (username cu) = Some u
                    \<and> UserInDB.role u = Some ADMIN \<and> UserInDB.ident u = ident cu))"
proof -
  from get_current_user_Inr [OF assms(1)] obtain u0
    where u0: "get_user_by_username self (username cu) = Some u0"
      and cu: "without_password u0 = Inr cu" and mem: "u0 \<in> set (users self)"
    by blast
  note cu_fields = without_password_Inr [OF cu]
  from mem cu_fields(6) have "ident cu \<in> UserInDB.ident ` set (users self)"
    by force
  then obtain k where k: "index_of_id (users self) (ident cu) = Some k"
    using index_of_id_None [of "users self" "ident cu"]
    by (cases "index_of_id (users self) (ident cu)") simp_all
  from index_of_id_Some [OF k] have klen: "k < length (users self)"
    and kid: "UserInDB.ident (users self ! k) = ident cu" by simp_all
  define y where "y = copy_update (users self ! k) uu now"
  define self' where "self' = self \<lparr> users := (users self)[k := y] \<rparr>"
  define r where "r = (case without_password y of Inl e \<Rightarrow> Inl e | Inr view \<Rightarrow> Inr (Some view))"
  have role_y: "UserInDB.role y = Some ADMIN"
    using assms(4) by (simp add: y_def copy_update_sets apply_setting_def)
  have id_y: "UserInDB.ident y = ident cu"
    and name_y: "UserInDB.username y = UserInDB.username (users self ! k)"
    using kid by (simp_all add: y_def)
  have upd: "update_user now self (ident cu) uu = (r, self')"
    using update_user_Some [OF k, of now uu] by (simp add: y_def self'_def r_def)
  have dep: "depends_current_active_user vt self token = Inr cu"
    using assms(1,2) by (simp add: depends_current_active_user_def get_current_active_user_def)
  define res where "res = (case r of Inl e \<Rightarrow> Inl e | Inr (Some view) \<Rightarrow> Inr view
      | Inr None \<Rightarrow> Inl (HTTPException HTTP_404_NOT_FOUND ''User not found''))"
  have api: "api_update_user vt now self token (ident cu) uu = (res, self')"
    using dep upd by (simp add: api_update_user_def res_def split: sum.splits option.splits)
  have users': "users self' = (users self)[k := y]"
    by (simp add: self'_def)
  have "map UserInDB.ident (users self') = map UserInDB.ident (users self)"
    unfolding users' using klen id_y kid by (intro map_list_update_same) simp_all
  from index_of_id_cong [OF this, of "ident cu"] k
  have k': "index_of_id (users self') (ident cu) = Some k" by simp
  have found: "find (\<lambda>user. UserInDB.ident user = ident cu) (users self') = Some y"
    using index_of_id_find [OF k'] klen by (simp add: users')
  have same: "users self ! k = u0" if "reachable self"
  proof -
    from reachable_store_inv [OF that]
    have "sorted_wrt (<) (map UserInDB.ident (users self))"
      by (simp add: store_inv_def)
    then have di: "distinct (map UserInDB.ident (users self))"
      by (simp add: strict_sorted_iff)
    have "UserInDB.ident (users self ! k) = UserInDB.ident u0"
      using kid cu_fields(6) by simp
    from nth_of_distinct_key [OF di mem klen this] show ?thesis .
  qed
  have valid_k: "valid_account (users self ! k)"
    if "reachable self \<or> list_all valid_account (users self)"
  proof -
    from that show ?thesis
    proof
      assume "reachable self"
      from same [OF this] cu show ?thesis
        using without_password_Inr_iff [of u0] by auto
    next
      assume "list_all valid_account (users self)"
      with klen show ?thesis by (simp add: list_all_length)
    qed
  qed
  have success: "(\<exists>v. res = Inr v \<and> role v = ADMIN \<and> ident v = ident cu)
                \<and> (\<exists>v'. get_user_by_id self' (ident cu) = Inr (Some v') \<and> role v' = ADMIN)"
    if e: "UserUpdate.email uu \<noteq> Given None" and a: "UserUpdate.is_active uu \<noteq> Given None"
      and s: "reachable self \<or> list_all valid_account (users self)"
  proof -
    from valid_k [OF s] obtain e0 a0 where "UserInDB.email (users self ! k) = Some e0"
        "UserInDB.is_active (users self ! k) = Some a0"
      by (auto simp add: valid_account_def)
    with e a have "UserInDB.email y \<noteq> None" and "UserInDB.is_active y \<noteq> None"
      by (auto simp add: y_def copy_update_sets apply_setting_def split: setting.splits)
    with role_y have "valid_account y" by (simp add: valid_account_def)
    then obtain v where v: "without_password y = Inr v"
      using without_password_Inr_iff [of y] by blast
    from without_password_Inr [OF v] role_y id_y
    have "role v = ADMIN" and "ident v = ident cu" by simp_all
    moreover from v have "res = Inr v" by (simp add: res_def r_def)
    moreover from v found have "get_user_by_id self' (ident cu) = Inr (Some v)"
      by (simp add: get_user_by_id_def)
    ultimately show ?thesis by simp
  qed
  have byname: "get_user_by_username self' (username cu) = Some y" if "reachable self"
  proof -
    from reachable_store_inv [OF that]
    have dn: "distinct (map UserInDB.username (users self))"
      by (simp add: store_inv_def)
    from same [OF that] cu_fields(4) name_y have "UserInDB.username y = username cu" by simp
    with find_list_update_distinct [OF dn klen name_y] show ?thesis
      by (simp add: get_user_by_username_def users')
  qed
  have "api_update_user vt now self token (ident cu) uu = (res, self')
           \<and> (\<exists>u. find (\<lambda>user. UserInDB.ident user = ident cu) (users self') = Some u
                  \<and> UserInDB.role u = Some ADMIN)
           \<and> (UserUpdate.email uu \<noteq> Given None \<and> UserUpdate.is_active uu \<noteq> Given None
                \<and> (reachable self \<or> list_all valid_account (users self)) \<longrightarrow>
                (\<exists>v. res = Inr v \<and> role v = ADMIN \<and> ident v = ident cu)
                \<and> (\<exists>v'. get_user_by_id self' (ident cu) = Inr (Some v') \<and> role v' = ADMIN))
           \<and> (reachable self \<longrightarrow>
                (\<exists>u. get_user_by_username self' (username cu) = Some u
                    \<and> UserInDB.role u = Some ADMIN \<and> UserInDB.ident u = ident cu))"
    using api found role_y id_y success byname by simp
  then show ?thesis by blast
qed

theorem self_promotion_to_admin_witness:
  "\<exists>v self'.
      api_update_user (verify_token_at False 200) 300 seeded_service
        (issue ''john_doe'' 100 1800) 2
        \<lparr> UserUpdate.email = Unset, UserUpdate.full_name = Unset,
          UserUpdate.role = Given (Some ADMIN), UserUpdate.is_active = Unset \<rparr> = (Inr v, self')
      \<and> role v = ADMIN \<and> ident v = 2
      \<and> (\<exists>u. find (\<lambda>user. UserInDB.ident user = 2) (users self') = Some u
             \<and> UserInDB.role u = Some ADMIN)
      \<and> (\<exists>v'. get_user_by_id self' 2 = Inr (Some v') \<and> role v' = ADMIN)
      \<and> (\<exists>u. get_user_by_username self' ''john_doe'' = Some u
             \<and> UserInDB.role u = Some ADMIN \<and> UserInDB.ident u = 2)"
proof -
  let ?cu = "\<lparr> username = ''john_doe'', email = ''john@example.com'',
               full_name = Some ''John Doe'', role = USER, is_active = True,
               ident = 2, created_at = 0, updated_at = None \<rparr>"
  let ?uu = "\<lparr> UserUpdate.email = Unset, UserUpdate.full_name = Unset,
          UserUpdate.role = Given (Some ADMIN), UserUpdate.is_active = Unset \<rparr>"
  have cu: "get_current_user (verify_token_at False 200) seeded_service
              (issue ''john_doe'' 100 1800) = Inr ?cu"
    by (simp add: get_current_user_def verify_token_at_issue get_user_by_username_def
        seeded_service_def without_password_record)
  from self_promotion_to_admin [OF cu, of ?uu 300] reachable_seeded_service
  show ?thesis by auto
qed

end
